theory Spec2Isabelle
  imports Main
begin

section \<open>Python string primitives used by DiffUE.py\<close>

text \<open>
  A Python \<open>str\<close> (and a \<open>bytes\<close> value) is a \<open>string\<close>, one \<open>char\<close> per code point
  below 256. Paths follow the POSIX flavour of \<open>os.path\<close>: \<open>os.sep\<close> is \<open>/\<close>.
\<close>

definition os_sep :: string where
  "os_sep = ''/''"

definition backslash :: char where
  "backslash = CHR 0x5C"

definition newline :: char where
  "newline = CHR 0x0A"

text \<open>\<open>s.startswith(p)\<close> and \<open>s.endswith(p)\<close>.\<close>

definition startswith :: "string \<Rightarrow> string \<Rightarrow> bool" where
  "startswith s p = (take (length p) s = p)"

definition endswith :: "string \<Rightarrow> string \<Rightarrow> bool" where
  "endswith s p = (length p \<le> length s \<and> drop (length s - length p) s = p)"

text \<open>\<open>s.index(sub)\<close>: the first position where \<open>sub\<close> occurs, \<open>None\<close> for ValueError.\<close>

fun str_index :: "string \<Rightarrow> string \<Rightarrow> nat option" where
  "str_index [] sub = (if sub = [] then Some 0 else None)"
| "str_index (c # cs) sub =
     (if startswith (c # cs) sub then Some 0
      else map_option Suc (str_index cs sub))"

text \<open>\<open>sub in s\<close> on strings.\<close>

definition str_contains :: "string \<Rightarrow> string \<Rightarrow> bool" where
  "str_contains sub s = (str_index s sub \<noteq> None)"

text \<open>\<open>s[0:k]\<close> for a Python int \<open>k\<close>: a negative bound counts from the end.\<close>

definition slice_to :: "string \<Rightarrow> int \<Rightarrow> string" where
  "slice_to s k = (if k < 0 then take (nat (int (length s) + k)) s else take (nat k) s)"

text \<open>\<open>s.replace("\\", "/")\<close>: both patterns are single characters.\<close>

definition replace_backslash :: "string \<Rightarrow> string" where
  "replace_backslash s = map (\<lambda>c. if c = backslash then CHR ''/'' else c) s"

text \<open>The line boundaries of \<open>str.splitlines\<close> among the code points below 256.\<close>

definition is_linebreak :: "char \<Rightarrow> bool" where
  "is_linebreak c = (of_char c \<in> {10, 11, 12, 13, 28, 29, 30, 133 :: nat})"

fun splitlines_acc :: "string \<Rightarrow> string \<Rightarrow> string list" where
  "splitlines_acc cur [] = (if cur = [] then [] else [rev cur])"
| "splitlines_acc cur [c] = (if is_linebreak c then [rev cur] else [rev (c # cur)])"
| "splitlines_acc cur (c # d # cs) =
     (if of_char c = (13::nat) \<and> of_char d = (10::nat) then rev cur # splitlines_acc [] cs
      else if is_linebreak c then rev cur # splitlines_acc [] (d # cs)
      else splitlines_acc (c # cur) (d # cs))"

definition splitlines :: "string \<Rightarrow> string list" where
  "splitlines s = splitlines_acc [] s"

text \<open>\<open>str.strip()\<close>: the whitespace code points below 256.\<close>

definition is_space :: "char \<Rightarrow> bool" where
  "is_space c = (of_char c \<in> {9, 10, 11, 12, 13, 28, 29, 30, 31, 32, 133, 160 :: nat})"

definition strip :: "string \<Rightarrow> string" where
  "strip s = rev (dropWhile is_space (rev (dropWhile is_space s)))"

text \<open>\<open>x in xs\<close> on a list: equality with some element.\<close>

fun py_in :: "'a \<Rightarrow> 'a list \<Rightarrow> bool" where
  "py_in x [] = False"
| "py_in x (y # ys) = (if x = y then True else py_in x ys)"

text \<open>Truthiness of an optional string: \<open>None\<close> and the empty string are falsy.\<close>

fun truthy :: "string option \<Rightarrow> bool" where
  "truthy None = False"
| "truthy (Some s) = (s \<noteq> [])"

subsection \<open>os.path, POSIX flavour\<close>

text \<open>\<open>os.path.join(a, b)\<close> and its variadic form.\<close>

definition os_path_join :: "string \<Rightarrow> string \<Rightarrow> string" where
  "os_path_join a b =
     (if startswith b os_sep then b
      else if a = [] \<or> endswith a os_sep then a @ b
      else a @ os_sep @ b)"

definition os_path_join_all :: "string \<Rightarrow> string list \<Rightarrow> string" where
  "os_path_join_all a ps = foldl os_path_join a ps"

text \<open>\<open>os.path.basename\<close>: what follows the last separator.\<close>

definition os_path_basename :: "string \<Rightarrow> string" where
  "os_path_basename p = rev (takeWhile (\<lambda>c. c \<noteq> CHR ''/'') (rev p))"

text \<open>\<open>os.path.dirname\<close>: the head, without trailing separators unless it is all separators.\<close>

definition os_path_dirname :: "string \<Rightarrow> string" where
  "os_path_dirname p =
     (let head = rev (dropWhile (\<lambda>c. c \<noteq> CHR ''/'') (rev p))
      in if head \<noteq> [] \<and> (\<exists>c \<in> set head. c \<noteq> CHR ''/'')
         then rev (dropWhile (\<lambda>c. c = CHR ''/'') (rev head)) else head)"

text \<open>
  \<open>os.path.splitext\<close>: split at the last dot of the last component, unless only dots
  precede it there.
\<close>

definition os_path_splitext :: "string \<Rightarrow> string \<times> string" where
  "os_path_splitext p =
     (let base = os_path_basename p;
          ext = rev (takeWhile (\<lambda>c. c \<noteq> CHR ''.'') (rev base));
          stem = take (length base - length ext - 1) base
      in if CHR ''.'' \<in> set base \<and> (\<exists>c \<in> set stem. c \<noteq> CHR ''.'')
         then (take (length p - length ext - 1) p, CHR ''.'' # ext)
         else (p, []))"

section \<open>The world the script runs in\<close>

text \<open>
  Every failure of the script is an exception that ends the run. The constructors name
  the failure by kind; \<open>OSError\<close> is what \<open>os.scandir\<close>, \<open>open\<close> and
  \<open>os.unlink\<close> raise, \<open>ToolInvocationFailed\<close> is \<open>subprocess.CalledProcessError\<close>.
\<close>

datatype error =
    AnchorNotFound | InvalidAsset | NoHistory | ToolInvocationFailed
  | ConfigurationMissing | ObjectIdMissing | ObjectNotFound | OSError

text \<open>An \<open>os.DirEntry\<close>: its name, its path (the scanned directory joined with the name)
  and what \<open>is_dir()\<close> answers.\<close>

record dir_entry =
  entry_name :: string
  entry_path :: string
  entry_is_dir :: bool

text \<open>What the run does to its surroundings, in order.\<close>

datatype event =
    Scandir string
  | Capture string "string list"
  | CaptureBlob string "string list"
  | Run string "string list"
  | Mkdtemp string
  | WriteFile string
  | Unlink string

text \<open>
  The surroundings: \<open>listing\<close> is what a directory holds (name and whether it is a
  directory, in enumeration order; \<open>None\<close> when the path cannot be scanned),
  \<open>files\<close> the regular files with their bytes, \<open>dirs\<close> the existing directories,
  \<open>proc\<close> the standard output of an external command run from a directory with an
  argument list (\<open>None\<close> when it exits non-zero), \<open>tmp_name\<close> the name
  \<open>tempfile.mkdtemp\<close> picks next, \<open>abspath\<close> and \<open>relpath\<close> the library's
  path arithmetic, \<open>trace\<close> the events so far. External commands leave the
  files alone.
\<close>

record world =
  listing :: "string \<Rightarrow> (string \<times> bool) list option"
  files :: "string \<rightharpoonup> string"
  dirs :: "string set"
  cwd :: string
  ue_diff_bin :: "string option"
  proc :: "string \<Rightarrow> string list \<Rightarrow> string option"
  tmp_name :: string
  abspath :: "string \<Rightarrow> string"
  relpath :: "string \<Rightarrow> string \<Rightarrow> string"
  trace :: "event list"

type_synonym 'a io = "world \<Rightarrow> (error + 'a) \<times> world"

definition log_event :: "event \<Rightarrow> world \<Rightarrow> world" where
  "log_event ev w = w\<lparr>trace := trace w @ [ev]\<rparr>"

text \<open>\<open>with os.scandir(dir) as it\<close>, read to the end.\<close>

definition scandir :: "string \<Rightarrow> dir_entry list io" where
  "scandir dir w =
     (case listing w dir of
        None \<Rightarrow> (Inl OSError, log_event (Scandir dir) w)
      | Some rows \<Rightarrow>
          (Inr (map (\<lambda>(n, d). \<lparr>entry_name = n, entry_path = os_path_join dir n,
                                 entry_is_dir = d\<rparr>) rows),
           log_event (Scandir dir) w))"

definition isfile :: "world \<Rightarrow> string \<Rightarrow> bool" where
  "isfile w p = (p \<in> dom (files w))"

text \<open>\<open>tempfile.mkdtemp()\<close>: a directory that did not exist.\<close>

definition mkdtemp :: "string io" where
  "mkdtemp w =
     (if tmp_name w \<in> dirs w \<or> tmp_name w \<in> dom (files w) then (Inl OSError, w)
      else (Inr (tmp_name w),
            log_event (Mkdtemp (tmp_name w)) (w\<lparr>dirs := insert (tmp_name w) (dirs w)\<rparr>)))"

text \<open>\<open>with open(path, "wb") as file: file.write(contents)\<close>.\<close>

definition write_file :: "string \<Rightarrow> string \<Rightarrow> unit io" where
  "write_file path contents w =
     (if os_path_dirname path \<in> dirs w \<and> path \<notin> dirs w
      then (Inr (), log_event (WriteFile path) (w\<lparr>files := (files w)(path \<mapsto> contents)\<rparr>))
      else (Inl OSError, w))"

text \<open>\<open>os.unlink(path)\<close>.\<close>

definition unlink :: "string \<Rightarrow> unit io" where
  "unlink path w =
     (if path \<in> dom (files w)
      then (Inr (), log_event (Unlink path) (w\<lparr>files := (files w)(path := None)\<rparr>))
      else (Inl OSError, w))"

section \<open>Command runners\<close>

definition run_cmd :: "string \<Rightarrow> string list \<Rightarrow> unit io" where
  "run_cmd dir cmd_parts w =
     (case proc w dir cmd_parts of
        None \<Rightarrow> (Inl ToolInvocationFailed, log_event (Run dir cmd_parts) w)
      | Some out \<Rightarrow> (Inr (), log_event (Run dir cmd_parts) w))"

definition run_cmd_capture :: "string \<Rightarrow> string list \<Rightarrow> string io" where
  "run_cmd_capture dir cmd_parts w =
     (case proc w dir cmd_parts of
        None \<Rightarrow> (Inl ToolInvocationFailed, log_event (Capture dir cmd_parts) w)
      | Some out \<Rightarrow> (Inr out, log_event (Capture dir cmd_parts) w))"

definition run_cmd_capture_blob :: "string \<Rightarrow> string list \<Rightarrow> string io" where
  "run_cmd_capture_blob dir cmd_parts w =
     (case proc w dir cmd_parts of
        None \<Rightarrow> (Inl ToolInvocationFailed, log_event (CaptureBlob dir cmd_parts) w)
      | Some out \<Rightarrow> (Inr out, log_event (CaptureBlob dir cmd_parts) w))"

section \<open>Git operations\<close>

definition get_git_relative_asset_path :: "world \<Rightarrow> string \<Rightarrow> string \<Rightarrow> string" where
  "get_git_relative_asset_path w git_root asset_path =
     replace_backslash (relpath w asset_path git_root)"

definition git_find_last_revision :: "string \<Rightarrow> string \<Rightarrow> string io" where
  "git_find_last_revision git_root file_path w =
     (case run_cmd_capture git_root
             [''git'', ''log'', ''--format=%h'', ''-n'', ''1'', file_path] w of
        (Inl e, w') \<Rightarrow> (Inl e, w')
      | (Inr revision, w') \<Rightarrow>
          (if strip revision = [] then (Inl NoHistory, w') else (Inr (strip revision), w')))"

definition git_download_asset_revision ::
  "string \<Rightarrow> string \<Rightarrow> string \<Rightarrow> string \<Rightarrow> unit io" where
  "git_download_asset_revision git_root asset_path revision tmp_path w =
     (let git_asset_path = get_git_relative_asset_path w git_root asset_path
      in case run_cmd_capture_blob git_root
                [''git'', ''show'', revision @ '':'' @ git_asset_path] w of
           (Inl e, w') \<Rightarrow> (Inl e, w')
         | (Inr raw_contents, w') \<Rightarrow> write_file tmp_path raw_contents w')"

definition git_is_lfs :: "string \<Rightarrow> string \<Rightarrow> bool io" where
  "git_is_lfs git_root asset_path w =
     (case run_cmd_capture git_root [''git'', ''lfs'', ''ls-files''] w of
        (Inl e, w') \<Rightarrow> (Inl e, w')
      | (Inr lfs_files_output, w') \<Rightarrow>
          (let lfs_files = map (drop 13) (splitlines lfs_files_output);
               git_asset_path = get_git_relative_asset_path w' git_root asset_path
           in (Inr (py_in git_asset_path lfs_files), w')))"

section \<open>Generic utilities\<close>

text \<open>\<open>last_index(input, sep)\<close>: the bare \<open>except\<close> turns a missing separator into -1.\<close>

definition last_index :: "string \<Rightarrow> string \<Rightarrow> int" where
  "last_index input sep =
     (case str_index (rev input) sep of
        Some i \<Rightarrow> int (length input) - int i - 1
      | None \<Rightarrow> - 1)"

text \<open>
  The loop of \<open>find_entry_in_dir\<close>. Its state is \<open>entry_path\<close> and
  \<open>dirs_to_check\<close>; \<open>pop()\<close> takes the last element of the list. The loop need
  not end (a listing can go on naming subdirectories for ever), so the outer
  \<open>option\<close> is \<open>None\<close> where it does not return.
\<close>

partial_function (option) find_entry_loop ::
  "(dir_entry \<Rightarrow> bool) \<Rightarrow> string option \<Rightarrow> string list \<Rightarrow> world
     \<Rightarrow> ((error + string option) \<times> world) option" where
  "find_entry_loop predicate entry_path_var dirs_to_check w =
     (if dirs_to_check \<noteq> [] \<and> \<not> truthy entry_path_var then
        (case scandir (last dirs_to_check) w of
           (Inl e, w') \<Rightarrow> Some (Inl e, w')
         | (Inr it, w') \<Rightarrow>
             (let dir = last dirs_to_check;
                  entries = filter (\<lambda>entry. entry_name entry \<noteq> ''.git'') it;
                  new_dirs = filter entry_is_dir entries;
                  dirs_to_check' = butlast dirs_to_check
                     @ map (\<lambda>subdir. os_path_join dir (entry_path subdir)) new_dirs;
                  matches = filter predicate entries;
                  entry_path_var' =
                    (if length matches > 0
                     then Some (os_path_join dir (entry_name (hd matches)))
                     else entry_path_var)
              in find_entry_loop predicate entry_path_var' dirs_to_check' w'))
      else Some (Inr entry_path_var, w))"

declare find_entry_loop.simps [code]

definition find_entry_in_dir ::
  "string \<Rightarrow> (dir_entry \<Rightarrow> bool) \<Rightarrow> world \<Rightarrow> ((error + string option) \<times> world) option" where
  "find_entry_in_dir start_dir predicate w = find_entry_loop predicate None [start_dir] w"

text \<open>The loop of \<open>find_entry_in_dir_up\<close>: state \<open>path\<close>, \<open>entry_path\<close>,
  \<open>last_slash_index\<close>.\<close>

function find_entry_up_loop ::
  "(dir_entry \<Rightarrow> bool) \<Rightarrow> string \<Rightarrow> string option \<Rightarrow> int \<Rightarrow> world
     \<Rightarrow> (error + string option) \<times> world" where
  "find_entry_up_loop predicate path entry_path_var last_slash_index w =
     (if path \<noteq> [] \<and> \<not> truthy entry_path_var \<and> last_slash_index > 0 then
        (case scandir path w of
           (Inl e, w') \<Rightarrow> (Inl e, w')
         | (Inr it, w') \<Rightarrow>
             find_entry_up_loop predicate
               (slice_to path (last_index path os_sep))
               (if list_ex predicate it then Some path else entry_path_var)
               (last_index path os_sep) w')
      else (Inr entry_path_var, w))"
  by pat_completeness auto
termination
  by (relation "measure (\<lambda>(predicate, path, entry_path_var, last_slash_index, w). length path)")
     (auto simp: slice_to_def last_index_def neq_Nil_conv split: option.splits)

definition find_entry_in_dir_up ::
  "string \<Rightarrow> (dir_entry \<Rightarrow> bool) \<Rightarrow> world \<Rightarrow> (error + string option) \<times> world" where
  "find_entry_in_dir_up start_dir predicate w = find_entry_up_loop predicate start_dir None 1 w"

section \<open>Path finders\<close>

function find_git_root_loop ::
  "string \<Rightarrow> string \<Rightarrow> int \<Rightarrow> world \<Rightarrow> (error + string) \<times> world" where
  "find_git_root_loop path git_root last_slash_index w =
     (if path \<noteq> [] \<and> git_root = [] \<and> last_slash_index > 0 then
        (case scandir path w of
           (Inl e, w') \<Rightarrow> (Inl e, w')
         | (Inr it, w') \<Rightarrow>
             find_git_root_loop
               (slice_to path (last_index path os_sep))
               (if list_ex (\<lambda>entry. entry_name entry = ''.git'') it then path else git_root)
               (last_index path os_sep) w')
      else (Inr git_root, w))"
  by pat_completeness auto
termination
  by (relation "measure (\<lambda>(path, git_root, last_slash_index, w). length path)")
     (auto simp: slice_to_def last_index_def neq_Nil_conv split: option.splits)

definition find_git_root :: "string io" where
  "find_git_root w =
     (case find_git_root_loop (cwd w) [] 1 w of
        (Inl e, w') \<Rightarrow> (Inl e, w')
      | (Inr git_root, w') \<Rightarrow>
          (if git_root = [] then (Inl AnchorNotFound, w') else (Inr git_root, w')))"

definition get_ue_bin_path :: "string io" where
  "get_ue_bin_path w =
     (if \<not> truthy (ue_diff_bin w) then (Inl ConfigurationMissing, w)
      else (case ue_diff_bin w of Some path \<Rightarrow> (Inr path, w)
            | None \<Rightarrow> (Inl ConfigurationMissing, w)))"

definition get_valid_asset_path :: "string \<Rightarrow> string io" where
  "get_valid_asset_path relative_asset_path w =
     (let asset_path = abspath w (os_path_join (cwd w) relative_asset_path)
      in if \<not> isfile w asset_path then (Inl InvalidAsset, w) else (Inr asset_path, w))"

definition uproject_predicate :: "dir_entry \<Rightarrow> bool" where
  "uproject_predicate entry = endswith (entry_name entry) ''.uproject''"

definition get_project_path :: "string \<Rightarrow> world \<Rightarrow> ((error + string) \<times> world) option" where
  "get_project_path start_dir w =
     (case find_entry_in_dir start_dir uproject_predicate w of
        None \<Rightarrow> None
      | Some (Inl e, w1) \<Rightarrow> Some (Inl e, w1)
      | Some (Inr (Some path), w1) \<Rightarrow>
          (if path \<noteq> [] then Some (Inr path, w1)
           else (case find_entry_in_dir_up start_dir uproject_predicate w1 of
                   (Inl e, w2) \<Rightarrow> Some (Inl e, w2)
                 | (Inr (Some path2), w2) \<Rightarrow>
                     (if path2 \<noteq> [] then Some (Inr path2, w2)
                      else Some (Inl AnchorNotFound, w2))
                 | (Inr None, w2) \<Rightarrow> Some (Inl AnchorNotFound, w2)))
      | Some (Inr None, w1) \<Rightarrow>
          (case find_entry_in_dir_up start_dir uproject_predicate w1 of
             (Inl e, w2) \<Rightarrow> Some (Inl e, w2)
           | (Inr (Some path2), w2) \<Rightarrow>
               (if path2 \<noteq> [] then Some (Inr path2, w2)
                else Some (Inl AnchorNotFound, w2))
           | (Inr None, w2) \<Rightarrow> Some (Inl AnchorNotFound, w2)))"

definition get_asset_temp_path :: "string \<Rightarrow> string \<Rightarrow> string io" where
  "get_asset_temp_path asset_path revision w =
     (case mkdtemp w of
        (Inl e, w') \<Rightarrow> (Inl e, w')
      | (Inr tmp_dir, w') \<Rightarrow>
          (let name_parts = os_path_splitext asset_path;
               asset_base_name = os_path_basename (fst name_parts);
               new_name = asset_base_name @ ''_'' @ revision @ snd name_parts;
               new_path = os_path_join tmp_dir new_name
           in (Inr new_path, w')))"

section \<open>Diff operations\<close>

definition create_diff_command_parts ::
  "string \<Rightarrow> string \<Rightarrow> string \<Rightarrow> string option \<Rightarrow> string list" where
  "create_diff_command_parts ue_bin_path project_path asset_path second_asset_path =
     (case second_asset_path of
        Some second \<Rightarrow>
          (if second \<noteq> [] then [ue_bin_path, project_path, ''-diff'', asset_path, second]
           else [ue_bin_path, project_path, ''-diff'', asset_path])
      | None \<Rightarrow> [ue_bin_path, project_path, ''-diff'', asset_path])"

definition diff_lfs ::
  "string \<Rightarrow> string \<Rightarrow> string \<Rightarrow> string \<Rightarrow> string \<Rightarrow> unit io" where
  "diff_lfs git_root asset_path revision ue_bin_path project_path w =
     (let git_asset_path = get_git_relative_asset_path w git_root asset_path
      in case run_cmd_capture git_root [''git'', ''lfs'', ''env''] w of
           (Inl e, w1) \<Rightarrow> (Inl e, w1)
         | (Inr lfs_envs_output, w1) \<Rightarrow>
            (case map (drop 14) (filter (str_contains ''LocalMediaDir='')
                                        (splitlines lfs_envs_output)) of
               [] \<Rightarrow> (Inl ConfigurationMissing, w1)
             | lfs_media_dir # other_dirs \<Rightarrow>
                (case run_cmd_capture git_root
                        [''git'', ''cat-file'', ''-p'', revision @ '':'' @ git_asset_path] w1 of
                   (Inl e, w2) \<Rightarrow> (Inl e, w2)
                 | (Inr oid_output, w2) \<Rightarrow>
                    (case map (drop 11) (filter (str_contains ''oid sha256:'')
                                                (splitlines oid_output)) of
                       [] \<Rightarrow> (Inl ObjectIdMissing, w2)
                     | asset_oid # other_oids \<Rightarrow>
                        (let left_asset_path = os_path_join_all lfs_media_dir
                               [take 2 asset_oid, take 2 (drop 2 asset_oid), asset_oid]
                         in if \<not> isfile w2 left_asset_path then (Inl ObjectNotFound, w2)
                            else run_cmd git_root
                                   (create_diff_command_parts ue_bin_path project_path
                                      left_asset_path (Some asset_path)) w2)))))"

definition diff_normal ::
  "string \<Rightarrow> string \<Rightarrow> string \<Rightarrow> string \<Rightarrow> string \<Rightarrow> unit io" where
  "diff_normal git_root asset_path revision ue_bin_path project_path w =
     (case get_asset_temp_path asset_path revision w of
        (Inl e, w1) \<Rightarrow> (Inl e, w1)
      | (Inr tmp_path, w1) \<Rightarrow>
         (case git_download_asset_revision git_root asset_path revision tmp_path w1 of
            (Inl e, w2) \<Rightarrow> (Inl e, w2)
          | (Inr u, w2) \<Rightarrow>
             (case run_cmd git_root
                     (create_diff_command_parts ue_bin_path project_path tmp_path
                        (Some asset_path)) w2 of
                (Inl e, w3) \<Rightarrow> (Inl e, w3)
              | (Inr u', w3) \<Rightarrow> unlink tmp_path w3)))"

section \<open>Main\<close>

text \<open>\<open>main\<close> after argument parsing: \<open>relative_asset_path\<close> is \<open>args.asset\<close>.\<close>

definition main :: "string \<Rightarrow> world \<Rightarrow> ((error + unit) \<times> world) option" where
  "main relative_asset_path w =
     (case find_git_root w of
        (Inl e, w1) \<Rightarrow> Some (Inl e, w1)
      | (Inr git_root, w1) \<Rightarrow>
     (case get_valid_asset_path relative_asset_path w1 of
        (Inl e, w2) \<Rightarrow> Some (Inl e, w2)
      | (Inr asset_path, w2) \<Rightarrow>
     (case get_project_path git_root w2 of
        None \<Rightarrow> None
      | Some (Inl e, w3) \<Rightarrow> Some (Inl e, w3)
      | Some (Inr project_path, w3) \<Rightarrow>
     (case get_ue_bin_path w3 of
        (Inl e, w4) \<Rightarrow> Some (Inl e, w4)
      | (Inr ue_bin_path, w4) \<Rightarrow>
     (case git_find_last_revision git_root (relpath w4 asset_path git_root) w4 of
        (Inl e, w5) \<Rightarrow> Some (Inl e, w5)
      | (Inr revision, w5) \<Rightarrow>
     (case git_is_lfs git_root asset_path w5 of
        (Inl e, w6) \<Rightarrow> Some (Inl e, w6)
      | (Inr is_lfs, w6) \<Rightarrow>
          (if is_lfs
           then Some (diff_lfs git_root asset_path revision ue_bin_path project_path w6)
           else Some (diff_normal git_root asset_path revision ue_bin_path project_path w6))))))))"

section \<open>Vocabulary of the properties\<close>

text \<open>The world after scanning the directories \<open>ds\<close> in order: only the trace grows.\<close>

definition after_scans :: "string list \<Rightarrow> world \<Rightarrow> world" where
  "after_scans ds w = w\<lparr>trace := trace w @ map Scandir ds\<rparr>"

text \<open>
  The directories below \<open>start\<close> that can be reached by stepping, any number of times,
  into a listed subdirectory whose name is not \<open>.git\<close>; the path of the step is the one
  the search builds, the directory joined with the entry's path.
\<close>

inductive_set reachable :: "(string \<Rightarrow> (string \<times> bool) list option) \<Rightarrow> string \<Rightarrow> string set"
  for ls :: "string \<Rightarrow> (string \<times> bool) list option" and start :: string where
  start: "start \<in> reachable ls start"
| descend: "d \<in> reachable ls start \<Longrightarrow> ls d = Some rows \<Longrightarrow> (n, True) \<in> set rows
     \<Longrightarrow> n \<noteq> ''.git'' \<Longrightarrow> os_path_join d (os_path_join d n) \<in> reachable ls start"

text \<open>\<open>p\<close> is the path of an entry not named \<open>.git\<close> that satisfies the predicate and
  is listed in a reachable directory.\<close>

definition search_hit ::
  "(string \<Rightarrow> (string \<times> bool) list option) \<Rightarrow> string \<Rightarrow> (dir_entry \<Rightarrow> bool) \<Rightarrow> string \<Rightarrow> bool" where
  "search_hit ls start predicate p =
     (\<exists>d rows n b. d \<in> reachable ls start \<and> ls d = Some rows \<and> (n, b) \<in> set rows
        \<and> n \<noteq> ''.git''
        \<and> predicate \<lparr>entry_name = n, entry_path = os_path_join d n, entry_is_dir = b\<rparr>
        \<and> p = os_path_join d n)"

text \<open>No listed name contains a separator, as in every real directory listing.\<close>

definition plain_names :: "world \<Rightarrow> bool" where
  "plain_names w = (\<forall>d rows n b. listing w d = Some rows \<longrightarrow> (n, b) \<in> set rows \<longrightarrow> CHR ''/'' \<notin> set n)"


text \<open>Every existing directory lies in an existing directory (the root in itself).\<close>

definition dirs_closed :: "world \<Rightarrow> bool" where
  "dirs_closed w = (\<forall>p \<in> dirs w. os_path_dirname p \<in> dirs w)"

section \<open>A sample run\<close>

text \<open>
  A repository \<open>/repo\<close> with the asset \<open>Content/Foo.uasset\<close> tracked inline, last
  changed in revision \<open>abc1234\<close>, and the asset \<open>Content/Bar.uasset\<close> tracked by
  LFS, last changed in \<open>def5678\<close>, whose object is not in the local LFS storage
  \<open>/lfs-cache\<close>; the run starts in \<open>/repo/Content\<close>.
\<close>

definition demo_lfs_listing :: string where
  "demo_lfs_listing = ''0123456789 * Content/Foo.uasset.bak'' @ [newline]
                 @ ''aaaaaaaaaa - Content/Bar.uasset'' @ [newline]"

definition demo_lfs_env :: string where
  "demo_lfs_env = ''Endpoint=https://example.org/repo.git/info/lfs (auth=none)'' @ [newline]
                 @ ''LocalMediaDir=/lfs-cache'' @ [newline]
                 @ ''TempDir=/repo/.git/lfs/tmp'' @ [newline]"

definition demo_pointer :: string where
  "demo_pointer = ''version https://git-lfs.github.com/spec/v1'' @ [newline]
                 @ ''oid sha256:deadbeef00112233'' @ [newline]
                 @ ''size 4096'' @ [newline]"

definition demo_proc :: "string \<Rightarrow> string list \<Rightarrow> string option" where
  "demo_proc dir argv =
     (if argv = [''git'', ''log'', ''--format=%h'', ''-n'', ''1'', ''Content/Foo.uasset'']
      then Some (''abc1234'' @ [newline])
      else if argv = [''git'', ''log'', ''--format=%h'', ''-n'', ''1'', ''Content/Bar.uasset'']
      then Some (''def5678'' @ [newline])
      else if argv = [''git'', ''lfs'', ''ls-files'']
      then Some demo_lfs_listing
      else if argv = [''git'', ''show'', ''abc1234:Content/Foo.uasset'']
      then Some ''old bytes''
      else if argv = [''git'', ''lfs'', ''env'']
      then Some demo_lfs_env
      else if argv = [''git'', ''cat-file'', ''-p'', ''def5678:Content/Bar.uasset'']
      then Some demo_pointer
      else if argv = [''/ue/UnrealEditor-Cmd'', ''/repo/Game.uproject'', ''-diff'',
                      ''/tmp/tmpx1/Foo_abc1234.uasset'', ''/repo/Content/Foo.uasset'']
      then Some []
      else None)"

definition demo_world :: world where
  "demo_world =
     \<lparr>listing = (\<lambda>p. if p = ''/repo/Content''
                       then Some [(''Foo.uasset'', False), (''Bar.uasset'', False)]
                     else if p = ''/repo''
                       then Some [(''.git'', True), (''Content'', True),
                                  (''Game.uproject'', False)]
                     else None),
      files = [''/repo/Content/Foo.uasset'' \<mapsto> ''new bytes'',
               ''/repo/Content/Bar.uasset'' \<mapsto> ''new bar'',
               ''/repo/Game.uproject'' \<mapsto> []],
      dirs = {''/'', ''/repo'', ''/repo/Content'', ''/tmp''},
      cwd = ''/repo/Content'',
      ue_diff_bin = Some ''/ue/UnrealEditor-Cmd'',
      proc = demo_proc,
      tmp_name = ''/tmp/tmpx1'',
      abspath = (\<lambda>p. p),
      relpath = (\<lambda>p start. drop (length start + 1) p),
      trace = []\<rparr>"


subsection \<open>Directory trees for the searches\<close>

text \<open>
  A repository whose \<open>.git\<close> directory holds the only project file, with a
  submodule \<open>Content\<close> whose \<open>.git\<close> is a file.
\<close>

definition search_world :: world where
  "search_world =
     \<lparr>listing = (\<lambda>p. if p = ''/repo'' then Some [(''.git'', True), (''Content'', True)]
                     else if p = ''/repo/.git'' then Some [(''inside.uproject'', False)]
                     else if p = ''/repo/Content''
                       then Some [(''.git'', False), (''Foo.uasset'', False)]
                     else None),
      files = Map.empty, dirs = {}, cwd = ''/repo'', ue_diff_bin = None,
      proc = (\<lambda>dir argv. None), tmp_name = ''/tmp/t'', abspath = (\<lambda>p. p),
      relpath = (\<lambda>p start. p), trace = []\<rparr>"


text \<open>A tree with a project file at the top and another one level down.\<close>

definition shallow_world :: world where
  "shallow_world =
     \<lparr>listing = (\<lambda>p. if p = ''/p'' then Some [(''Sub'', True), (''Top.uproject'', False)]
                     else if p = ''/p/Sub'' then Some [(''Deep.uproject'', False)]
                     else None),
      files = Map.empty, dirs = {}, cwd = ''/p'', ue_diff_bin = None,
      proc = (\<lambda>dir argv. None), tmp_name = ''/tmp/t'', abspath = (\<lambda>p. p),
      relpath = (\<lambda>p start. p), trace = []\<rparr>"

text \<open>A repository with a project file inside \<open>.git/hooks\<close>, where the run starts.\<close>

definition gitcwd_world :: world where
  "gitcwd_world =
     \<lparr>listing = (\<lambda>p. if p = ''/repo'' then Some [(''.git'', True), (''Content'', True)]
                     else if p = ''/repo/.git'' then Some [(''hooks'', True)]
                     else if p = ''/repo/.git/hooks'' then Some [(''Tool.uproject'', False)]
                     else if p = ''/repo/Content'' then Some [(''Foo.uasset'', False)]
                     else None),
      files = Map.empty, dirs = {}, cwd = ''/repo/.git/hooks'', ue_diff_bin = None,
      proc = (\<lambda>dir argv. None), tmp_name = ''/tmp/t'', abspath = (\<lambda>p. p),
      relpath = (\<lambda>p start. p), trace = []\<rparr>"

text \<open>
  A repository \<open>/repo/Content\<close> (its \<open>.git\<close> is a file) nested in a project whose
  project file lies one directory up.
\<close>

definition submodule_world :: world where
  "submodule_world =
     \<lparr>listing = (\<lambda>p. if p = ''/repo'' then Some [(''Content'', True), (''Game.uproject'', False)]
                     else if p = ''/repo/Content''
                       then Some [(''.git'', False), (''Foo.uasset'', False)]
                     else None),
      files = Map.empty, dirs = {}, cwd = ''/repo/Content'', ue_diff_bin = None,
      proc = (\<lambda>dir argv. None), tmp_name = ''/tmp/t'', abspath = (\<lambda>p. p),
      relpath = (\<lambda>p start. p), trace = []\<rparr>"


text \<open>
  A repository whose asset has a backslash in its repo-relative path, as
  \<open>os.path.relpath\<close> returns it (under Windows for every asset below a
  subdirectory; here a file of that name in \<open>/repo\<close>). Every command succeeds.
\<close>

definition backslash_asset :: string where
  "backslash_asset = ''Content'' @ [backslash] @ ''Foo.uasset''"

definition backslash_world :: world where
  "backslash_world =
     \<lparr>listing = (\<lambda>p. if p = ''/repo''
                       then Some [(''.git'', True), (''Game.uproject'', False),
                                  (backslash_asset, False)]
                     else None),
      files = [''/repo/'' @ backslash_asset \<mapsto> ''new bytes''],
      dirs = {''/'', ''/repo'', ''/tmp''},
      cwd = ''/repo'',
      ue_diff_bin = Some ''/ue/UnrealEditor-Cmd'',
      proc = (\<lambda>dir argv. if take 2 argv = [''git'', ''log'']
                            then Some (''abc1234'' @ [newline]) else Some []),
      tmp_name = ''/tmp/tmpx1'',
      abspath = (\<lambda>p. p),
      relpath = (\<lambda>p start. drop (length start + 1) p),
      trace = []\<rparr>"

section \<open>Properties\<close>

subsection \<open>Helper facts\<close>

lemma py_in_set: "py_in x xs = (x \<in> set xs)"
  by (induction xs) auto

lemma demo_lines: "splitlines demo_lfs_listing =
    [''0123456789 * Content/Foo.uasset.bak'', ''aaaaaaaaaa - Content/Bar.uasset'']"
  by (simp add: demo_lfs_listing_def newline_def splitlines_def is_linebreak_def)

lemma after_scans_Nil [simp]: "after_scans [] w = w"
  by (simp add: after_scans_def)

lemma after_scans_append: "after_scans ds2 (after_scans ds1 w) = after_scans (ds1 @ ds2) w"
  by (simp add: after_scans_def)

lemma after_scans_fields [simp]:
  "listing (after_scans ds w) = listing w"
  "files (after_scans ds w) = files w"
  "dirs (after_scans ds w) = dirs w"
  "cwd (after_scans ds w) = cwd w"
  "proc (after_scans ds w) = proc w"
  "ue_diff_bin (after_scans ds w) = ue_diff_bin w"
  "tmp_name (after_scans ds w) = tmp_name w"
  "abspath (after_scans ds w) = abspath w"
  "relpath (after_scans ds w) = relpath w"
  "trace (after_scans ds w) = trace w @ map Scandir ds"
  by (simp_all add: after_scans_def)


lemma scandir_Inr:
  "scandir d w = (Inr it, w') \<Longrightarrow>
     \<exists>rows. listing w d = Some rows \<and> w' = after_scans [d] w \<and>
       it = map (\<lambda>(n, b). \<lparr>entry_name = n, entry_path = os_path_join d n, entry_is_dir = b\<rparr>) rows"
  by (auto simp: scandir_def after_scans_def log_event_def split: option.splits)

lemma scandir_Inl:
  "scandir d w = (Inl e, w') \<Longrightarrow> w' = after_scans [d] w"
  by (auto simp: scandir_def after_scans_def log_event_def split: option.splits)

lemma find_entry_loop_inv:
  assumes "find_entry_loop predicate ep ds w = Some y"
  shows "set ds \<subseteq> reachable (listing w) s \<Longrightarrow>
         (\<forall>p. ep = Some p \<longrightarrow> search_hit (listing w) s predicate p) \<Longrightarrow>
         \<exists>scanned. snd y = after_scans scanned w \<and> set scanned \<subseteq> reachable (listing w) s
             \<and> (\<forall>p. fst y = Inr (Some p) \<longrightarrow> search_hit (listing w) s predicate p)"
  using assms
proof (induct predicate ep ds w y rule: find_entry_loop.raw_induct [rotated 1, consumes 1])
  case (1 loop predicate ep ds w y)
  show ?case
  proof (cases "ds \<noteq> [] \<and> \<not> truthy ep")
    case False
    with 1(2) have "y = (Inr ep, w)" by auto
    with 1(4) show ?thesis
      by (intro exI [of _ "[]"]) auto
  next
    case True
    then have last_in: "last ds \<in> reachable (listing w) s"
      using 1(3) by auto
    obtain x w1 where sc: "scandir (last ds) w = (x, w1)"
      by (cases "scandir (last ds) w") auto
    show ?thesis
    proof (cases x)
      case (Inl e)
      with sc True 1(2) have "y = (Inl e, w1)" by simp
      moreover have "w1 = after_scans [last ds] w"
        using sc Inl scandir_Inl by blast
      ultimately show ?thesis
        using last_in by (intro exI [of _ "[last ds]"]) auto
    next
      case (Inr it)
      from scandir_Inr [OF sc [unfolded Inr]] obtain rows where
        rows: "listing w (last ds) = Some rows" and w1: "w1 = after_scans [last ds] w"
        and it: "it = map (\<lambda>(n, b). \<lparr>entry_name = n, entry_path = os_path_join (last ds) n,
                     entry_is_dir = b\<rparr>) rows"
        by blast
      define entries where "entries = filter (\<lambda>entry. entry_name entry \<noteq> ''.git'') it"
      define ds' where "ds' = butlast ds @ map (\<lambda>subdir. os_path_join (last ds) (entry_path subdir))
           (filter entry_is_dir entries)"
      define ep' where "ep' = (if 0 < length (filter predicate entries)
           then Some (os_path_join (last ds) (entry_name (hd (filter predicate entries)))) else ep)"
      have rec: "loop predicate ep' ds' w1 = Some y"
        using 1(2) unfolding entries_def ds'_def ep'_def
        by (simp only: True if_True sc Inr prod.case sum.case Let_def simp_thms)
      have sub: "set ds' \<subseteq> reachable (listing w1) s"
      proof
        fix p assume "p \<in> set ds'"
        then consider "p \<in> set (butlast ds)"
          | e where "e \<in> set it" "entry_name e \<noteq> ''.git''" "entry_is_dir e"
              "p = os_path_join (last ds) (entry_path e)"
          by (auto simp: ds'_def entries_def)
        then show "p \<in> reachable (listing w1) s"
        proof cases
          case 1
          then have "p \<in> set ds" by (rule in_set_butlastD)
          then show ?thesis using \<open>set ds \<subseteq> reachable (listing w) s\<close> w1 by auto
        next
          case 2
          then obtain n where "(n, True) \<in> set rows" "n \<noteq> ''.git''"
            "p = os_path_join (last ds) (os_path_join (last ds) n)"
            by (auto simp: it)
          then show ?thesis
            using reachable.descend [OF last_in rows] w1 by simp
        qed
      qed
      have hit: "\<forall>p. ep' = Some p \<longrightarrow> search_hit (listing w1) s predicate p"
      proof (cases "filter predicate entries")
        case Nil
        then show ?thesis using 1(4) w1 by (simp add: ep'_def)
      next
        case (Cons m ms)
        then have "m \<in> set (filter predicate entries)" by simp
        then have m: "m \<in> set it" "entry_name m \<noteq> ''.git''" "predicate m"
          by (auto simp: entries_def)
        then obtain n b where "(n, b) \<in> set rows"
          "m = \<lparr>entry_name = n, entry_path = os_path_join (last ds) n, entry_is_dir = b\<rparr>"
          by (auto simp: it)
        with m last_in rows have "search_hit (listing w) s predicate (os_path_join (last ds) (entry_name m))"
          unfolding search_hit_def by force
        then show ?thesis using Cons w1 by (simp add: ep'_def)
      qed
      from 1(1) [OF rec sub hit] obtain scanned where
        "snd y = after_scans scanned w1" "set scanned \<subseteq> reachable (listing w1) s"
        "\<forall>p. fst y = Inr (Some p) \<longrightarrow> search_hit (listing w1) s predicate p"
        by blast
      then show ?thesis
        using w1 last_in
        by (intro exI [of _ "last ds # scanned"]) (auto simp: after_scans_append)
    qed
  qed
qed

lemma basename_join:
  assumes "CHR ''/'' \<notin> set n"
  shows "os_path_basename (os_path_join d n) = n"
proof -
  have n: "takeWhile (\<lambda>c. c \<noteq> CHR ''/'') (rev n @ CHR ''/'' # xs) = rev n" for xs
    using assms by (subst takeWhile_append2) auto
  have n0: "takeWhile (\<lambda>c. c \<noteq> CHR ''/'') (rev n) = rev n"
    using assms by (subst takeWhile_eq_all_conv) auto
  have ns: "\<not> startswith n os_sep"
    using assms by (cases n) (auto simp: startswith_def os_sep_def)
  show ?thesis
  proof (cases "d = []")
    case True
    then show ?thesis using ns by (simp add: os_path_join_def os_path_basename_def n0)
  next
    case False
    then obtain d' c where d: "d = d' @ [c]" by (metis rev_exhaust)
    show ?thesis
    proof (cases "c = CHR ''/''")
      case True
      then have "endswith d os_sep" by (simp add: d endswith_def os_sep_def)
      then show ?thesis using ns n [of "rev d'"] True
        by (simp add: os_path_join_def os_path_basename_def d)
    next
      case False
      then have "\<not> endswith d os_sep" by (simp add: d endswith_def os_sep_def)
      then show ?thesis using ns n [of "rev d"] \<open>d \<noteq> []\<close>
        by (simp add: os_path_join_def os_path_basename_def os_sep_def)
    qed
  qed
qed

lemma after_scans_inj: "after_scans a w = after_scans b w \<Longrightarrow> a = b"
proof -
  assume "after_scans a w = after_scans b w"
  then have "trace (after_scans a w) = trace (after_scans b w)" by simp
  then have "map Scandir a = map Scandir b" by simp
  then show "a = b" by (simp add: inj_map_eq_map inj_on_def)
qed

lemma search_world_reachable:
  "d \<in> reachable (listing search_world) ''/repo'' \<Longrightarrow> d = ''/repo'' \<or> d = ''/repo/Content''"
  by (induction rule: reachable.induct)
     (auto simp: search_world_def os_path_join_def startswith_def endswith_def os_sep_def
           split: if_splits)


lemmas run_simps = find_entry_in_dir_def find_entry_loop.simps scandir_def log_event_def
  after_scans_def uproject_predicate_def endswith_def os_path_join_def startswith_def
  os_sep_def Let_def

lemma search_world_run:
  "find_entry_in_dir ''/repo'' uproject_predicate search_world
     = Some (Inr None, after_scans [''/repo'', ''/repo/Content''] search_world)"
  by (simp add: run_simps search_world_def)

lemma search_world_run_files:
  "find_entry_in_dir ''/repo'' (\<lambda>e. \<not> entry_is_dir e) search_world
     = Some (Inr (Some ''/repo/Content/Foo.uasset''),
             after_scans [''/repo'', ''/repo/Content''] search_world)"
  by (simp add: run_simps search_world_def)



lemma shallow_world_run:
  "find_entry_in_dir ''/p'' uproject_predicate shallow_world
     = Some (Inr (Some ''/p/Top.uproject''), after_scans [''/p''] shallow_world)"
  by (simp add: run_simps shallow_world_def)

lemma search_world_plain: "plain_names search_world"
  by (auto simp: plain_names_def search_world_def split: if_splits)

lemma join_plain:
  assumes "d \<noteq> []" "last d \<noteq> CHR ''/''" "\<not> startswith n os_sep"
  shows "os_path_join d n = d @ ''/'' @ n"
proof -
  from assms(1) obtain d' c where d: "d = d' @ [c]" by (metis rev_exhaust)
  with assms(2) have "\<not> endswith d os_sep" by (simp add: endswith_def os_sep_def)
  with assms show ?thesis by (simp add: os_path_join_def os_sep_def)
qed

lemma not_startswith_sep: "CHR ''/'' \<notin> set n \<Longrightarrow> \<not> startswith n os_sep"
  by (cases n) (auto simp: startswith_def os_sep_def)

lemma dirname_join:
  assumes "d \<noteq> []" "last d \<noteq> CHR ''/''" "CHR ''/'' \<notin> set n"
  shows "os_path_dirname (os_path_join d n) = d"
proof -
  have j: "os_path_join d n = d @ ''/'' @ n"
    using assms by (simp add: join_plain not_startswith_sep)
  have "dropWhile (\<lambda>c. c \<noteq> CHR ''/'') (rev n @ CHR ''/'' # rev d) = CHR ''/'' # rev d"
    using assms(3) by (subst dropWhile_append2) auto
  then have head: "rev (dropWhile (\<lambda>c. c \<noteq> CHR ''/'') (rev (d @ ''/'' @ n))) = d @ ''/''"
    by simp
  have some: "\<exists>c \<in> set (d @ ''/''). c \<noteq> CHR ''/''"
    using assms(1,2) last_in_set by fastforce
  have "hd (rev d) \<noteq> CHR ''/''"
    using assms(1,2) by (simp add: hd_rev)
  then have "dropWhile (\<lambda>c. c = CHR ''/'') (rev d) = rev d"
    using assms(1) by (cases "rev d") auto
  then have strip: "rev (dropWhile (\<lambda>c. c = CHR ''/'') (rev (d @ ''/''))) = d"
    by simp
  show ?thesis
    unfolding os_path_dirname_def j head Let_def using some strip by simp
qed

lemma basename_plain: "CHR ''/'' \<notin> set (os_path_basename p)"
  by (auto simp: os_path_basename_def dest: set_takeWhileD)

lemma splitext_ext_plain: "CHR ''/'' \<notin> set (snd (os_path_splitext p))"
proof -
  have "set (takeWhile (\<lambda>c. c \<noteq> CHR ''.'') (rev (os_path_basename p))) \<subseteq> set (os_path_basename p)"
    by (auto dest: set_takeWhileD)
  then show ?thesis
    using basename_plain [of p] by (auto simp: os_path_splitext_def Let_def)
qed

lemma materialize_inline:
  assumes fresh: "tmp_name w \<notin> dirs w" "tmp_name w \<notin> dom (files w)"
    and tmp: "tmp_name w \<noteq> []" "last (tmp_name w) \<noteq> CHR ''/''"
    and closed: "dirs_closed w"
    and rev: "CHR ''/'' \<notin> set revision"
    and blob: "proc w git_root [''git'', ''show'',
                 revision @ '':'' @ get_git_relative_asset_path w git_root asset_path] = Some blob"
    and tmp_path: "tmp_path = os_path_join (tmp_name w)
                     (os_path_basename (fst (os_path_splitext asset_path)) @ ''_'' @ revision
                        @ snd (os_path_splitext asset_path))"
    and w1: "w1 = log_event (Mkdtemp (tmp_name w)) (w\<lparr>dirs := insert (tmp_name w) (dirs w)\<rparr>)"
    and w2: "w2 = log_event (WriteFile tmp_path)
                    ((log_event (CaptureBlob git_root [''git'', ''show'',
                        revision @ '':'' @ get_git_relative_asset_path w git_root asset_path]) w1)
                      \<lparr>files := (files w)(tmp_path \<mapsto> blob)\<rparr>)"
  shows "get_asset_temp_path asset_path revision w = (Inr tmp_path, w1)"
    and "git_download_asset_revision git_root asset_path revision tmp_path w1 = (Inr (), w2)"
    and "os_path_dirname tmp_path = tmp_name w"
proof -
  let ?name = "os_path_basename (fst (os_path_splitext asset_path)) @ ''_'' @ revision
                        @ snd (os_path_splitext asset_path)"
  have plain: "CHR ''/'' \<notin> set ?name"
    using rev basename_plain splitext_ext_plain by simp
  show dn: "os_path_dirname tmp_path = tmp_name w"
    unfolding tmp_path using tmp plain by (rule dirname_join)
  show "get_asset_temp_path asset_path revision w = (Inr tmp_path, w1)"
    using fresh by (simp add: get_asset_temp_path_def mkdtemp_def tmp_path w1 Let_def)
  have "tmp_path \<notin> dirs w"
    using closed dn fresh(1) unfolding dirs_closed_def by auto
  moreover have "tmp_path \<noteq> tmp_name w"
    unfolding tmp_path using tmp plain by (simp add: join_plain not_startswith_sep)
  ultimately have ok: "os_path_dirname tmp_path \<in> dirs w1 \<and> tmp_path \<notin> dirs w1"
    using dn by (simp add: w1 log_event_def)
  show "git_download_asset_revision git_root asset_path revision tmp_path w1 = (Inr (), w2)"
    using ok blob
    by (simp add: git_download_asset_revision_def run_cmd_capture_blob_def write_file_def
        get_git_relative_asset_path_def w1 w2 log_event_def Let_def)
qed


lemma demo_dirs_closed: "dirs_closed demo_world"
  by (simp add: dirs_closed_def demo_world_def os_path_dirname_def)

lemma demo_splitext: "os_path_splitext ''/repo/Content/Foo.uasset'' = (''/repo/Content/Foo'', ''.uasset'')"
  by (simp add: os_path_splitext_def os_path_basename_def Let_def)

lemma demo_tmp_path:
  "''/tmp/tmpx1/Foo_abc1234.uasset'' = tmp_name demo_world @ ''/''
      @ os_path_basename (fst (os_path_splitext ''/repo/Content/Foo.uasset''))
      @ ''_'' @ ''abc1234'' @ snd (os_path_splitext ''/repo/Content/Foo.uasset'')"
  by (simp add: demo_splitext demo_world_def os_path_basename_def)

lemma demo_show:
  "proc demo_world ''/repo'' [''git'', ''show'',
      ''abc1234'' @ '':'' @ replace_backslash (relpath demo_world ''/repo/Content/Foo.uasset'' ''/repo'')]
     = Some ''old bytes''"
  by (simp add: demo_world_def demo_proc_def replace_backslash_def backslash_def)

lemma demo_media_dir:
  "map (drop 14) (filter (str_contains ''LocalMediaDir='') (splitlines demo_lfs_env))
     = [''/lfs-cache'']"
  by (simp add: demo_lfs_env_def newline_def splitlines_def is_linebreak_def
      str_contains_def startswith_def)

lemma demo_oid:
  "map (drop 11) (filter (str_contains ''oid sha256:'') (splitlines demo_pointer))
     = [''deadbeef00112233'']"
  by (simp add: demo_pointer_def newline_def splitlines_def is_linebreak_def
      str_contains_def startswith_def)

lemma scandir_err: "scandir d w = (Inl e, w') \<Longrightarrow> e = OSError"
  by (auto simp: scandir_def split: option.splits)

lemma find_entry_loop_err:
  assumes "find_entry_loop predicate ep ds w = Some y"
  shows "fst y = Inl e \<Longrightarrow> e = OSError"
  using assms
proof (induct predicate ep ds w y rule: find_entry_loop.raw_induct [rotated 1, consumes 1])
  case (1 loop predicate ep ds w y)
  show ?case
  proof (cases "ds \<noteq> [] \<and> \<not> truthy ep")
    case False
    with 1(2,3) show ?thesis by auto
  next
    case True
    obtain x w1 where sc: "scandir (last ds) w = (x, w1)"
      by (cases "scandir (last ds) w") auto
    show ?thesis
    proof (cases x)
      case (Inl e')
      with sc True 1(2,3) scandir_err show ?thesis by auto
    next
      case (Inr it)
      from 1(2) obtain ep' ds' where "loop predicate ep' ds' w1 = Some y"
        by (simp only: True if_True sc Inr prod.case sum.case Let_def simp_thms)
      from 1(1) [OF this 1(3)] show ?thesis .
    qed
  qed
qed


lemma find_entry_up_loop_err:
  "fst (find_entry_up_loop predicate path ep lsi w) = Inl e \<Longrightarrow> e = OSError"
proof (induction predicate path ep lsi w rule: find_entry_up_loop.induct)
  case (1 predicate path ep lsi w)
  show ?case
  proof (cases "path \<noteq> [] \<and> \<not> truthy ep \<and> 0 < lsi")
    case False
    with 1(2) show ?thesis
      by (subst (asm) find_entry_up_loop.simps) auto
  next
    case True
    obtain x w1 where sc: "scandir path w = (x, w1)"
      by (cases "scandir path w") auto
    show ?thesis
    proof (cases x)
      case (Inl e')
      with True sc 1(2) scandir_err show ?thesis
        by (subst (asm) find_entry_up_loop.simps) auto
    next
      case (Inr it)
      with True sc 1(2) have
        "fst (find_entry_up_loop predicate (slice_to path (last_index path os_sep))
               (if list_ex predicate it then Some path else ep) (last_index path os_sep) w1)
           = Inl e"
        by (subst (asm) find_entry_up_loop.simps) auto
      from 1(1) [OF True sc [symmetric] Inr this] show ?thesis .
    qed
  qed
qed




lemma find_entry_in_dir_err:
  "find_entry_in_dir start_dir predicate w = Some (Inl e, w') \<Longrightarrow> e = OSError"
  unfolding find_entry_in_dir_def using find_entry_loop_err by fastforce

lemma find_entry_in_dir_up_err:
  "find_entry_in_dir_up start_dir predicate w = (Inl e, w') \<Longrightarrow> e = OSError"
proof -
  assume "find_entry_in_dir_up start_dir predicate w = (Inl e, w')"
  then have "fst (find_entry_up_loop predicate start_dir None 1 w) = Inl e"
    by (simp add: find_entry_in_dir_up_def)
  then show "e = OSError" by (rule find_entry_up_loop_err)
qed

lemma submodule_down:
  "find_entry_in_dir ''/repo/Content'' uproject_predicate submodule_world
     = Some (Inr None, after_scans [''/repo/Content''] submodule_world)"
  by (simp add: run_simps submodule_world_def)

lemma submodule_up:
  "find_entry_in_dir_up ''/repo/Content'' uproject_predicate
       (after_scans [''/repo/Content''] submodule_world)
     = (Inr (Some ''/repo''),
        after_scans [''/repo/Content'', ''/repo/Content'', ''/repo''] submodule_world)"
  by (simp add: find_entry_in_dir_up_def scandir_def log_event_def
      after_scans_def uproject_predicate_def endswith_def os_path_join_def startswith_def
      os_sep_def last_index_def slice_to_def submodule_world_def)















subsection \<open>Storage classification\<close>

text \<open>
  C5. \<open>git_is_lfs\<close> depends on the world only through the text that
  \<open>git lfs ls-files\<close> prints and the asset's repo-relative path: it answers true
  exactly when some line of the text, with its first 13 characters dropped, is equal
  as a whole string to the repo-relative path. Its only effect is the one command.
\<close>

theorem git_is_lfs_exact_membership:
  assumes "proc w git_root [''git'', ''lfs'', ''ls-files''] = Some listing_text"
  shows "git_is_lfs git_root asset_path w =
           (Inr (\<exists>l \<in> set (splitlines listing_text).
                    drop 13 l = replace_backslash (relpath w asset_path git_root)),
            log_event (Capture git_root [''git'', ''lfs'', ''ls-files'']) w)"
  using assms
  by (auto simp: git_is_lfs_def run_cmd_capture_def get_git_relative_asset_path_def
      py_in_set log_event_def Let_def intro: rev_image_eqI)

text \<open>
  In the sample listing \<open>Content/Foo.uasset.bak\<close> and \<open>Content/Bar.uasset\<close> are
  tracked: \<open>Content/Foo.uasset\<close>, a proper prefix of a listed path, is not classified
  as tracked, \<open>Content/Bar.uasset\<close> is.
\<close>

theorem git_is_lfs_exact_membership_witness:
  "proc demo_world ''/repo'' [''git'', ''lfs'', ''ls-files''] = Some demo_lfs_listing
   \<and> fst (git_is_lfs ''/repo'' ''/repo/Content/Foo.uasset'' demo_world) = Inr False
   \<and> fst (git_is_lfs ''/repo'' ''/repo/Content/Bar.uasset'' demo_world) = Inr True"
proof -
  have p: "proc demo_world ''/repo'' [''git'', ''lfs'', ''ls-files''] = Some demo_lfs_listing"
    by (simp add: demo_world_def demo_proc_def)
  have r: "relpath demo_world = (\<lambda>p start. drop (length start + 1) p)"
    by (simp add: demo_world_def)
  show ?thesis
    using git_is_lfs_exact_membership [OF p, of "''/repo/Content/Foo.uasset''"]
      git_is_lfs_exact_membership [OF p, of "''/repo/Content/Bar.uasset''"] p
    by (simp add: demo_lines r replace_backslash_def backslash_def)
qed

subsection \<open>Downward search\<close>

text \<open>
  C9. Whenever \<open>find_entry_in_dir\<close> returns, the directories it has scanned, in order,
  are all reachable from \<open>start_dir\<close> through listed subdirectories not named
  \<open>.git\<close>, nothing else in the world has changed, and a path it returns is that of an
  entry listed in such a directory: it never descends into a directory named \<open>.git\<close>,
  and enumerates or returns nothing inside one.
\<close>

theorem search_down_skips_git:
  assumes "find_entry_in_dir start_dir predicate w = Some (r, w')"
  shows "\<exists>scanned. w' = after_scans scanned w
           \<and> (\<forall>d \<in> set scanned. d \<in> reachable (listing w) start_dir)
           \<and> (\<forall>p. r = Inr (Some p) \<longrightarrow> search_hit (listing w) start_dir predicate p)"
proof -
  have "set [start_dir] \<subseteq> reachable (listing w) start_dir"
    by (simp add: reachable.start)
  from find_entry_loop_inv [OF assms [unfolded find_entry_in_dir_def] this]
  show ?thesis by auto
qed

text \<open>
  In the sample repository the only project file is inside \<open>/repo/.git\<close>: the search
  scans \<open>/repo\<close> and \<open>/repo/Content\<close>, never \<open>/repo/.git\<close>, and finds nothing.
\<close>

theorem search_down_skips_git_witness:
  "find_entry_in_dir ''/repo'' uproject_predicate search_world
     = Some (Inr None, after_scans [''/repo'', ''/repo/Content''] search_world)
   \<and> ''/repo'' \<in> reachable (listing search_world) ''/repo''
   \<and> ''/repo/Content'' \<in> reachable (listing search_world) ''/repo''
   \<and> ''/repo/.git'' \<notin> reachable (listing search_world) ''/repo''
   \<and> listing search_world ''/repo/.git'' = Some [(''inside.uproject'', False)]"
proof -
  from search_down_skips_git [OF search_world_run] obtain scanned where
    "after_scans [''/repo'', ''/repo/Content''] search_world = after_scans scanned search_world"
    and all: "\<forall>d \<in> set scanned. d \<in> reachable (listing search_world) ''/repo''"
    by blast
  then have "scanned = [''/repo'', ''/repo/Content'']"
    using after_scans_inj by metis
  with all have "''/repo'' \<in> reachable (listing search_world) ''/repo''"
    "''/repo/Content'' \<in> reachable (listing search_world) ''/repo''"
    by simp_all
  moreover have "''/repo/.git'' \<notin> reachable (listing search_world) ''/repo''"
    using search_world_reachable by fastforce
  moreover have "listing search_world ''/repo/.git'' = Some [(''inside.uproject'', False)]"
    by (simp add: search_world_def)
  ultimately show ?thesis using search_world_run by simp
qed

text \<open>
  C10. Entries named \<open>.git\<close> are dropped before the predicate is applied, files and
  directories alike: whatever the predicate, the last component of a returned path is
  not \<open>.git\<close>.
\<close>

theorem search_down_never_returns_git:
  assumes "plain_names w"
    and "find_entry_in_dir start_dir predicate w = Some (Inr (Some p), w')"
  shows "os_path_basename p \<noteq> ''.git''"
proof -
  from find_entry_loop_inv [OF assms(2) [unfolded find_entry_in_dir_def], of start_dir]
  have "search_hit (listing w) start_dir predicate p"
    by (auto simp: reachable.start)
  then obtain d rows n b where "listing w d = Some rows" "(n, b) \<in> set rows"
    "n \<noteq> ''.git''" "p = os_path_join d n"
    unfolding search_hit_def by blast
  moreover from this assms(1) have "CHR ''/'' \<notin> set n"
    unfolding plain_names_def by blast
  ultimately show ?thesis by (simp add: basename_join)
qed

text \<open>
  With the predicate "is not a directory", the file \<open>.git\<close> listed first in
  \<open>/repo/Content\<close> satisfies the predicate and is passed over.
\<close>

theorem search_down_never_returns_git_witness:
  "plain_names search_world
   \<and> listing search_world ''/repo/Content'' = Some [(''.git'', False), (''Foo.uasset'', False)]
   \<and> find_entry_in_dir ''/repo'' (\<lambda>e. \<not> entry_is_dir e) search_world
       = Some (Inr (Some ''/repo/Content/Foo.uasset''),
               after_scans [''/repo'', ''/repo/Content''] search_world)
   \<and> os_path_basename ''/repo/Content/Foo.uasset'' \<noteq> ''.git''"
  using search_down_never_returns_git [OF search_world_plain search_world_run_files]
    search_world_plain search_world_run_files
  by (simp add: search_world_def)





subsection \<open>Materialization of the old content\<close>

text \<open>
  C8. Let \<open>mkdtemp\<close> pick a fresh, well-formed directory name in a consistent
  directory tree, let the revision contain no separator, and let \<open>git show\<close> print
  the bytes \<open>blob\<close> for the revision and the normalized repo-relative path. Then
  \<open>get_asset_temp_path\<close> creates the directory and answers the path
  \<open><tmp_dir>/<assetBaseName>_<revision><assetExtension>\<close>, which lies directly in
  the new directory, and after \<open>git_download_asset_revision\<close> the file at that path
  holds exactly \<open>blob\<close>.
\<close>

theorem inline_materialization_round_trip:
  assumes "tmp_name w \<notin> dirs w" and "tmp_name w \<notin> dom (files w)"
    and "tmp_name w \<noteq> []" and "last (tmp_name w) \<noteq> CHR ''/''"
    and "dirs_closed w"
    and "CHR ''/'' \<notin> set revision"
    and "proc w git_root [''git'', ''show'',
           revision @ '':'' @ replace_backslash (relpath w asset_path git_root)] = Some blob"
    and "tmp_path = tmp_name w @ ''/'' @ os_path_basename (fst (os_path_splitext asset_path))
                      @ ''_'' @ revision @ snd (os_path_splitext asset_path)"
  shows "\<exists>w1 w2. get_asset_temp_path asset_path revision w = (Inr tmp_path, w1)
           \<and> git_download_asset_revision git_root asset_path revision tmp_path w1 = (Inr (), w2)
           \<and> files w2 tmp_path = Some blob
           \<and> os_path_dirname tmp_path = tmp_name w
           \<and> tmp_name w \<in> dirs w2"
proof -
  let ?name = "os_path_basename (fst (os_path_splitext asset_path)) @ ''_'' @ revision
                 @ snd (os_path_splitext asset_path)"
  have "CHR ''/'' \<notin> set ?name"
    using assms(6) basename_plain splitext_ext_plain by simp
  then have tp: "tmp_path = os_path_join (tmp_name w) ?name"
    using assms(3,4,8) by (simp add: join_plain not_startswith_sep)
  define w1 where "w1 = log_event (Mkdtemp (tmp_name w)) (w\<lparr>dirs := insert (tmp_name w) (dirs w)\<rparr>)"
  define w2 where "w2 = log_event (WriteFile tmp_path)
                    ((log_event (CaptureBlob git_root [''git'', ''show'',
                        revision @ '':'' @ get_git_relative_asset_path w git_root asset_path]) w1)
                      \<lparr>files := (files w)(tmp_path \<mapsto> blob)\<rparr>)"
  note m = materialize_inline [OF assms(1-6) assms(7) [folded get_git_relative_asset_path_def]
      tp w1_def w2_def]
  have "files w2 tmp_path = Some blob" "tmp_name w \<in> dirs w2"
    by (simp_all add: w2_def w1_def log_event_def)
  with m show ?thesis by blast
qed

text \<open>In the sample run the file is \<open>/tmp/tmpx1/Foo_abc1234.uasset\<close>.\<close>

theorem inline_materialization_round_trip_witness:
  "\<exists>w1 w2. get_asset_temp_path ''/repo/Content/Foo.uasset'' ''abc1234'' demo_world
               = (Inr ''/tmp/tmpx1/Foo_abc1234.uasset'', w1)
     \<and> git_download_asset_revision ''/repo'' ''/repo/Content/Foo.uasset'' ''abc1234''
          ''/tmp/tmpx1/Foo_abc1234.uasset'' w1 = (Inr (), w2)
     \<and> files w2 ''/tmp/tmpx1/Foo_abc1234.uasset'' = Some ''old bytes''
     \<and> os_path_dirname ''/tmp/tmpx1/Foo_abc1234.uasset'' = tmp_name demo_world
     \<and> tmp_name demo_world \<in> dirs w2"
proof -
  have a: "tmp_name demo_world \<notin> dirs demo_world" "tmp_name demo_world \<notin> dom (files demo_world)"
    "tmp_name demo_world \<noteq> []" "last (tmp_name demo_world) \<noteq> CHR ''/''"
    by (simp_all add: demo_world_def)
  have r: "CHR ''/'' \<notin> set ''abc1234''" by simp
  show ?thesis
    by (rule inline_materialization_round_trip [OF a demo_dirs_closed r demo_show demo_tmp_path])
qed





text \<open>
  C6. With \<open>LocalMediaDir\<close> and the object id taken from the first matching lines
  of \<open>git lfs env\<close> and \<open>git cat-file -p\<close> (a media directory without trailing
  separator, an object id of more than two characters without separator), the
  left-hand path is \<open><localMediaDir>/<oid[0:2]>/<oid[2:4]>/<oid>\<close>. When no regular
  file is there, \<open>diff_lfs\<close> fails with \<open>ObjectNotFound\<close> and the world has seen
  the two git commands only: the diff tool is not run. When the file is there, the
  diff tool is run on it and the asset.
\<close>

theorem diff_lfs_object_not_found:
  assumes "proc w git_root [''git'', ''lfs'', ''env''] = Some lfs_envs_output"
    and "map (drop 14) (filter (str_contains ''LocalMediaDir='') (splitlines lfs_envs_output))
           = lfs_media_dir # other_dirs"
    and "proc w git_root [''git'', ''cat-file'', ''-p'',
           revision @ '':'' @ replace_backslash (relpath w asset_path git_root)] = Some oid_output"
    and "map (drop 11) (filter (str_contains ''oid sha256:'') (splitlines oid_output))
           = asset_oid # other_oids"
    and "lfs_media_dir \<noteq> []" and "last lfs_media_dir \<noteq> CHR ''/''"
    and "CHR ''/'' \<notin> set asset_oid" and "2 < length asset_oid"
    and "left_asset_path = lfs_media_dir @ ''/'' @ take 2 asset_oid @ ''/''
                             @ take 2 (drop 2 asset_oid) @ ''/'' @ asset_oid"
    and "w2 = log_event (Capture git_root [''git'', ''cat-file'', ''-p'',
                 revision @ '':'' @ replace_backslash (relpath w asset_path git_root)])
               (log_event (Capture git_root [''git'', ''lfs'', ''env'']) w)"
  shows "diff_lfs git_root asset_path revision ue_bin_path project_path w =
           (if isfile w left_asset_path
            then run_cmd git_root
                   (create_diff_command_parts ue_bin_path project_path left_asset_path
                      (Some asset_path)) w2
            else (Inl ObjectNotFound, w2))"
proof -
  have plain: "CHR ''/'' \<notin> set (take 2 asset_oid)" "CHR ''/'' \<notin> set (take 2 (drop 2 asset_oid))"
    using assms(7) by (auto dest: in_set_takeD in_set_dropD)
  have ne: "take 2 asset_oid \<noteq> []" "take 2 (drop 2 asset_oid) \<noteq> []"
    using assms(8) by auto
  have lastne: "last (take 2 asset_oid) \<noteq> CHR ''/''"
    "last (take 2 (drop 2 asset_oid)) \<noteq> CHR ''/''"
    using plain ne last_in_set by metis+
  have j1: "os_path_join lfs_media_dir (take 2 asset_oid) = lfs_media_dir @ ''/'' @ take 2 asset_oid"
    using assms(5,6) plain by (simp add: join_plain not_startswith_sep)
  have j2: "os_path_join (lfs_media_dir @ ''/'' @ take 2 asset_oid) (take 2 (drop 2 asset_oid))
      = lfs_media_dir @ ''/'' @ take 2 asset_oid @ ''/'' @ take 2 (drop 2 asset_oid)"
    using plain ne lastne by (subst join_plain) (auto simp: not_startswith_sep)
  have j3: "os_path_join (lfs_media_dir @ ''/'' @ take 2 asset_oid @ ''/'' @ take 2 (drop 2 asset_oid))
       asset_oid = left_asset_path"
    using plain ne lastne assms(7) unfolding assms(9)
    by (subst join_plain) (auto simp: not_startswith_sep)
  have left: "os_path_join_all lfs_media_dir
      [take 2 asset_oid, take 2 (drop 2 asset_oid), asset_oid] = left_asset_path"
    by (simp only: os_path_join_all_def foldl.simps j1 j2 j3)
  show ?thesis
    using assms(1-4)
    by (simp add: diff_lfs_def run_cmd_capture_def get_git_relative_asset_path_def
        log_event_def isfile_def left assms(10) Let_def)
qed


text \<open>
  The sample asset \<open>Content/Bar.uasset\<close> has the object id
  \<open>deadbeef00112233\<close>, absent from \<open>/lfs-cache\<close>.
\<close>

theorem diff_lfs_object_not_found_witness:
  "diff_lfs ''/repo'' ''/repo/Content/Bar.uasset'' ''def5678'' ''/ue/UnrealEditor-Cmd''
       ''/repo/Game.uproject'' demo_world
     = (Inl ObjectNotFound,
        log_event (Capture ''/repo'' [''git'', ''cat-file'', ''-p'', ''def5678:Content/Bar.uasset''])
          (log_event (Capture ''/repo'' [''git'', ''lfs'', ''env'']) demo_world))
   \<and> \<not> isfile demo_world ''/lfs-cache/de/ad/deadbeef00112233''"
proof -
  have env: "proc demo_world ''/repo'' [''git'', ''lfs'', ''env''] = Some demo_lfs_env"
    by (simp add: demo_world_def demo_proc_def)
  have rel: "replace_backslash (relpath demo_world ''/repo/Content/Bar.uasset'' ''/repo'')
      = ''Content/Bar.uasset''"
    by (simp add: demo_world_def replace_backslash_def backslash_def)
  have cat: "proc demo_world ''/repo'' [''git'', ''cat-file'', ''-p'',
        ''def5678'' @ '':'' @ replace_backslash
           (relpath demo_world ''/repo/Content/Bar.uasset'' ''/repo'')] = Some demo_pointer"
    unfolding rel by (simp add: demo_world_def demo_proc_def)
  have nofile: "\<not> isfile demo_world ''/lfs-cache/de/ad/deadbeef00112233''"
    by (simp add: isfile_def demo_world_def)
  have left: "''/lfs-cache/de/ad/deadbeef00112233'' = ''/lfs-cache'' @ ''/''
      @ take 2 ''deadbeef00112233'' @ ''/'' @ take 2 (drop 2 ''deadbeef00112233'') @ ''/''
      @ ''deadbeef00112233''"
    by simp
  have a: "''/lfs-cache'' \<noteq> []" "last ''/lfs-cache'' \<noteq> CHR ''/''"
    "CHR ''/'' \<notin> set ''deadbeef00112233''" "2 < length ''deadbeef00112233''"
    by simp_all
  from diff_lfs_object_not_found [OF env demo_media_dir cat demo_oid a left refl,
      of "''/ue/UnrealEditor-Cmd''" "''/repo/Game.uproject''"] nofile
  show ?thesis by (simp add: rel)
qed


subsection \<open>The project descriptor\<close>

text \<open>
  C3, as stated, fails: started in \<open>/repo/.git/hooks\<close>, the repository root is
  \<open>/repo\<close>, the downward search from it finds nothing, and \<open>get_project_path\<close>
  fails with \<open>AnchorNotFound\<close> although the upward search from the current working
  directory finds the project file there.
\<close>

theorem upward_fallback_ignores_cwd:
  "fst (find_git_root gitcwd_world) = Inr ''/repo''
   \<and> map_option fst (get_project_path ''/repo'' gitcwd_world) = Some (Inl AnchorNotFound)
   \<and> fst (find_entry_in_dir_up (cwd gitcwd_world) uproject_predicate gitcwd_world)
       = Inr (Some ''/repo/.git/hooks'')"
  by code_simp


text \<open>
  C3, amended. When the downward search from \<open>start_dir\<close> finds nothing,
  \<open>get_project_path\<close> falls back to the upward search from the same \<open>start_dir\<close>
  (in \<open>main\<close>, the repository root) with the same predicate: it returns what that
  search finds, and it fails with \<open>AnchorNotFound\<close> exactly when both searches return
  without a result.
\<close>

theorem get_project_path_falls_back_from_start_dir:
  "(get_project_path start_dir w = Some (Inl AnchorNotFound, w') \<longleftrightarrow>
      (\<exists>r w1 r2. find_entry_in_dir start_dir uproject_predicate w = Some (Inr r, w1)
          \<and> \<not> truthy r
          \<and> find_entry_in_dir_up start_dir uproject_predicate w1 = (Inr r2, w')
          \<and> \<not> truthy r2))
   \<and> (find_entry_in_dir start_dir uproject_predicate w = Some (Inr r, w1) \<longrightarrow> \<not> truthy r \<longrightarrow>
        find_entry_in_dir_up start_dir uproject_predicate w1 = (Inr (Some p), w2) \<longrightarrow> p \<noteq> [] \<longrightarrow>
        get_project_path start_dir w = Some (Inr p, w2))"
proof (intro conjI iffI impI)
  assume a: "get_project_path start_dir w = Some (Inl AnchorNotFound, w')"
  then obtain x w1 where d: "find_entry_in_dir start_dir uproject_predicate w = Some (x, w1)"
    by (cases "find_entry_in_dir start_dir uproject_predicate w")
       (auto simp: get_project_path_def)
  obtain r where r: "x = Inr r"
    using a d find_entry_in_dir_err [of start_dir uproject_predicate w _ w1]
    by (cases x) (auto simp: get_project_path_def)
  have nt: "\<not> truthy r"
    using a d r by (cases r) (auto simp: get_project_path_def split: if_splits)
  obtain y w2 where u: "find_entry_in_dir_up start_dir uproject_predicate w1 = (y, w2)"
    by (cases "find_entry_in_dir_up start_dir uproject_predicate w1") auto
  have a': "(case y of Inl e \<Rightarrow> Some (Inl e, w2)
             | Inr None \<Rightarrow> Some (Inl AnchorNotFound, w2)
             | Inr (Some path2) \<Rightarrow> if path2 \<noteq> [] then Some (Inr path2, w2)
                                   else Some (Inl AnchorNotFound, w2))
            = Some (Inl AnchorNotFound, w')"
    using a d r nt u by (cases r) (auto simp: get_project_path_def split: if_splits)
  obtain r2 where r2: "y = Inr r2"
    using a' u find_entry_in_dir_up_err [of start_dir uproject_predicate w1 _ w2]
    by (cases y) auto
  have "\<not> truthy r2" "w2 = w'"
    using a' r2 by (cases r2; auto split: if_splits)+
  with d r nt u r2 show "\<exists>r w1 r2. find_entry_in_dir start_dir uproject_predicate w = Some (Inr r, w1)
          \<and> \<not> truthy r
          \<and> find_entry_in_dir_up start_dir uproject_predicate w1 = (Inr r2, w')
          \<and> \<not> truthy r2" by blast
next
  assume "\<exists>r w1 r2. find_entry_in_dir start_dir uproject_predicate w = Some (Inr r, w1)
          \<and> \<not> truthy r
          \<and> find_entry_in_dir_up start_dir uproject_predicate w1 = (Inr r2, w')
          \<and> \<not> truthy r2"
  then obtain r w1 r2 where "find_entry_in_dir start_dir uproject_predicate w = Some (Inr r, w1)"
    "\<not> truthy r" "find_entry_in_dir_up start_dir uproject_predicate w1 = (Inr r2, w')"
    "\<not> truthy r2" by blast
  then show "get_project_path start_dir w = Some (Inl AnchorNotFound, w')"
    by (cases r; cases r2) (auto simp: get_project_path_def)
next
  assume "find_entry_in_dir start_dir uproject_predicate w = Some (Inr r, w1)" "\<not> truthy r"
    "find_entry_in_dir_up start_dir uproject_predicate w1 = (Inr (Some p), w2)" "p \<noteq> []"
  then show "get_project_path start_dir w = Some (Inr p, w2)"
    by (cases r) (auto simp: get_project_path_def)
qed

text \<open>
  In the nested repository the downward search from \<open>/repo/Content\<close> finds nothing
  and the upward search from \<open>/repo/Content\<close> finds the project file in \<open>/repo\<close>.
\<close>

theorem get_project_path_falls_back_from_start_dir_witness:
  "find_entry_in_dir ''/repo/Content'' uproject_predicate submodule_world
     = Some (Inr None, after_scans [''/repo/Content''] submodule_world)
   \<and> find_entry_in_dir_up ''/repo/Content'' uproject_predicate
       (after_scans [''/repo/Content''] submodule_world)
     = (Inr (Some ''/repo''),
        after_scans [''/repo/Content'', ''/repo/Content'', ''/repo''] submodule_world)
   \<and> get_project_path ''/repo/Content'' submodule_world
     = Some (Inr ''/repo'',
             after_scans [''/repo/Content'', ''/repo/Content'', ''/repo''] submodule_world)"
  using get_project_path_falls_back_from_start_dir
    [of "''/repo/Content''" submodule_world submodule_world None
        "after_scans [''/repo/Content''] submodule_world" "''/repo''"
        "after_scans [''/repo/Content'', ''/repo/Content'', ''/repo''] submodule_world"]
    submodule_down submodule_up
  by simp


subsection \<open>The last revision\<close>




subsection \<open>The path handed to git\<close>

text \<open>
  C4 fails on the code: \<open>main\<close> hands \<open>git log\<close> the bare result of
  \<open>os.path.relpath\<close>, backslash included, while \<open>git show\<close> (like
  \<open>git cat-file\<close> and the LFS membership test) gets the path from
  \<open>get_git_relative_asset_path\<close>, with the backslash replaced by a slash.
\<close>

theorem git_log_path_not_normalized:
  "map_option (\<lambda>(r, w'). (r, take 5 (trace w'))) (main backslash_asset backslash_world)
     = Some (Inr (),
        [Scandir ''/repo'', Scandir ''/repo'',
         Capture ''/repo'' [''git'', ''log'', ''--format=%h'', ''-n'', ''1'',
                            ''Content'' @ [backslash] @ ''Foo.uasset''],
         Capture ''/repo'' [''git'', ''lfs'', ''ls-files''],
         Mkdtemp ''/tmp/tmpx1''])
   \<and> map_option (\<lambda>(r, w'). trace w' ! 5) (main backslash_asset backslash_world)
     = Some (CaptureBlob ''/repo'' [''git'', ''show'', ''abc1234:Content/Foo.uasset''])"
  by code_simp

end
